theory Spec2Isabelle
  imports Main
begin

section \<open>Python strings and dictionaries\<close>


definition ascii_lowercase :: string where
  "ascii_lowercase = ''abcdefghijklmnopqrstuvwxyz''"

definition ascii_uppercase :: string where
  "ascii_uppercase = ''ABCDEFGHIJKLMNOPQRSTUVWXYZ''"

definition upper_char :: "char \<Rightarrow> char" where
  "upper_char c =
     (case map_of (zip ascii_lowercase ascii_uppercase) c of None \<Rightarrow> c | Some u \<Rightarrow> u)"

definition lower_char :: "char \<Rightarrow> char" where
  "lower_char c =
     (case map_of (zip ascii_uppercase ascii_lowercase) c of None \<Rightarrow> c | Some l \<Rightarrow> l)"

definition str_upper :: "string \<Rightarrow> string" where
  "str_upper s = map upper_char s"

definition str_lower :: "string \<Rightarrow> string" where
  "str_lower s = map lower_char s"

definition startswith :: "string \<Rightarrow> string \<Rightarrow> bool" where
  "startswith s p = (take (length p) s = p)"

definition endswith :: "string \<Rightarrow> string \<Rightarrow> bool" where
  "endswith s p = (length p \<le> length s \<and> drop (length s - length p) s = p)"

text \<open>\<open>s.find(sub)\<close>: the index of the first occurrence of \<open>sub\<close>, or \<open>-1\<close>.\<close>

fun find_from :: "string \<Rightarrow> string \<Rightarrow> nat \<Rightarrow> int" where
  "find_from [] sub i = (if sub = [] then int i else - 1)"
| "find_from (c # s) sub i =
     (if startswith (c # s) sub then int i else find_from s sub (Suc i))"

definition str_find :: "string \<Rightarrow> string \<Rightarrow> int" where
  "str_find s sub = find_from s sub 0"

text \<open>\<open>sub in s\<close>.\<close>

definition str_in :: "string \<Rightarrow> string \<Rightarrow> bool" where
  "str_in sub s = (str_find s sub \<noteq> - 1)"

text \<open>
  Slices \<open>s[i:j]\<close> and \<open>s[i:]\<close>: a negative index counts from the end, and every
  index is clamped to the string.
\<close>

definition norm_index :: "nat \<Rightarrow> int \<Rightarrow> nat" where
  "norm_index n i = (if i < 0 then nat (max 0 (int n + i)) else min n (nat i))"

definition py_slice :: "'a list \<Rightarrow> int \<Rightarrow> int \<Rightarrow> 'a list" where
  "py_slice xs i j =
     (let a = norm_index (length xs) i; b = norm_index (length xs) j
      in take (b - a) (drop a xs))"

definition py_slice_from :: "'a list \<Rightarrow> int \<Rightarrow> 'a list" where
  "py_slice_from xs i = drop (norm_index (length xs) i) xs"

definition py_slice_to :: "'a list \<Rightarrow> int \<Rightarrow> 'a list" where
  "py_slice_to xs j = take (norm_index (length xs) j) xs"

text \<open>\<open>s.rstrip(chars)\<close> removes every trailing character that occurs in \<open>chars\<close>.\<close>

definition rstrip :: "string \<Rightarrow> string \<Rightarrow> string" where
  "rstrip s chars = rev (dropWhile (\<lambda>c. c \<in> set chars) (rev s))"

definition newline :: string where
  "newline = [CHR 0x0A]"

definition sq :: string where
  "sq = [CHR 0x27]"

text \<open>
  A dictionary is an association list in iteration (insertion) order with unique keys.
  \<open>d[k] = v\<close> replaces the value of a key that is present and appends a new key at the
  end.
\<close>

fun dict_set :: "('k \<times> 'v) list \<Rightarrow> 'k \<Rightarrow> 'v \<Rightarrow> ('k \<times> 'v) list" where
  "dict_set [] k v = [(k, v)]"
| "dict_set ((k', v') # d) k v =
     (if k' = k then (k', v) # d else (k', v') # dict_set d k v)"

definition dict_keys :: "('k \<times> 'v) list \<Rightarrow> 'k list" where
  "dict_keys d = map fst d"

definition dict_has :: "('k \<times> 'v) list \<Rightarrow> 'k \<Rightarrow> bool" where
  "dict_has d k = (k \<in> set (dict_keys d))"

section \<open>Errors\<close>

datatype error =
    KeyError string
  | ValueError string
  | AttributeError string
  | UnboundLocalError string

definition bind :: "error + 'a \<Rightarrow> ('a \<Rightarrow> error + 'b) \<Rightarrow> error + 'b" where
  "bind m f = (case m of Inl e \<Rightarrow> Inl e | Inr x \<Rightarrow> f x)"

section \<open>Cast\<close>

text \<open>
  A \<open>Cast\<close> object: the two attributes of \<open>keylist\<close>, which the constructor always
  sets, and the remaining instance attributes as a dictionary from attribute name to
  value. Attribute values are strings.
\<close>

record cast =
  source :: string
  target :: string
  attrs :: "(string \<times> string) list"

definition CONTEXTS :: "(string \<times> string) list" where
  "CONTEXTS = [(''a'', ''assignment''), (''e'', ''explicit''), (''i'', ''implicit'')]"

definition METHODS :: "(string \<times> string) list" where
  "METHODS = [(''f'', ''function''), (''i'', ''inout''), (''b'', ''binary coercible'')]"

definition keylist :: "string list" where
  "keylist = [''source'', ''target'']"

definition objtype :: string where
  "objtype = ''CAST''"

text \<open>\<open>Cast(source=src, target=trg)\<close>.\<close>

definition Cast :: "string \<Rightarrow> string \<Rightarrow> cast" where
  "Cast src trg = \<lparr>source = src, target = trg, attrs = []\<rparr>"

definition hasattr :: "cast \<Rightarrow> string \<Rightarrow> bool" where
  "hasattr c a = (a = ''source'' \<or> a = ''target'' \<or> dict_has (attrs c) a)"

definition attr_error :: "string \<Rightarrow> error" where
  "attr_error a = AttributeError (sq @ ''Cast'' @ sq @ '' object has no attribute '' @ sq @ a @ sq)"

definition getattr :: "cast \<Rightarrow> string \<Rightarrow> error + string" where
  "getattr c a =
     (if a = ''source'' then Inr (source c)
      else if a = ''target'' then Inr (target c)
      else (case map_of (attrs c) a of None \<Rightarrow> Inl (attr_error a) | Some v \<Rightarrow> Inr v))"

definition setattr :: "cast \<Rightarrow> string \<Rightarrow> string \<Rightarrow> cast" where
  "setattr c a v =
     (if a = ''source'' then c\<lparr>source := v\<rparr>
      else if a = ''target'' then c\<lparr>target := v\<rparr>
      else c\<lparr>attrs := dict_set (attrs c) a v\<rparr>)"

definition extern_key :: "cast \<Rightarrow> string" where
  "extern_key c = str_lower objtype @ '' ('' @ source c @ '' as '' @ target c @ '')''"

definition cast_identifier :: "cast \<Rightarrow> string" where
  "cast_identifier c = ''('' @ source c @ '' AS '' @ target c @ '')''"

text \<open>
  Modelled from the spec: \<open>DbObject._base_map\<close>, which is not part of the sources. The
  spec has \<open>toDesiredForm\<close> project the attributes of the object into the document's
  attribute mapping; the identity fields are carried by the external key, so the base
  map holds every attribute outside \<open>keylist\<close>.
\<close>

definition base_map :: "cast \<Rightarrow> (string \<times> string) list" where
  "base_map c = filter (\<lambda>(a, v). a \<notin> set keylist) (attrs c)"

definition dict_lookup :: "(string \<times> string) list \<Rightarrow> string \<Rightarrow> error + string" where
  "dict_lookup d k = (case map_of d k of None \<Rightarrow> Inl (KeyError k) | Some v \<Rightarrow> Inr v)"

definition to_map :: "cast \<Rightarrow> error + (string \<times> string) list" where
  "to_map c =
     (let dct = base_map c in
      bind (getattr c ''context'') (\<lambda>ctx.
      bind (dict_lookup CONTEXTS ctx) (\<lambda>ctx_word.
      let dct = dict_set dct ''context'' ctx_word in
      bind (getattr c ''method'') (\<lambda>meth.
      bind (dict_lookup METHODS meth) (\<lambda>meth_word.
      let dct = dict_set dct ''method'' meth_word in
      Inr dct)))))"

text \<open>The body of \<open>Cast.create\<close>, before the \<open>commentable\<close> decorator is applied.\<close>

definition create_body :: "cast \<Rightarrow> error + string list" where
  "create_body c =
     (let with_clause = newline @ ''    WITH'' in
      bind (if hasattr c ''function''
            then bind (getattr c ''function'') (\<lambda>f. Inr (with_clause @ '' FUNCTION '' @ f))
            else bind (getattr c ''method'') (\<lambda>m.
                   if m = ''i'' then Inr (with_clause @ '' INOUT'')
                   else Inr (with_clause @ ''OUT FUNCTION'')))
        (\<lambda>with_clause.
      bind (getattr c ''context'') (\<lambda>ctx.
      let as_clause =
            (if ctx = ''a'' then newline @ ''    AS ASSIGNMENT''
             else if ctx = ''i'' then newline @ ''    AS IMPLICIT''
             else '''')
      in Inr [''CREATE CAST ('' @ source c @ '' AS '' @ target c @ '')''
                @ with_clause @ as_clause])))"

text \<open>
  Modelled from the spec: \<open>DbObject.comment\<close>, which is not part of the sources. The
  spec gives the statement as \<open>COMMENT ON CAST (integer AS text) IS '<description>'\<close>.
\<close>

definition comment :: "cast \<Rightarrow> error + string" where
  "comment c =
     bind (getattr c ''description'') (\<lambda>d.
     Inr (''COMMENT ON '' @ objtype @ '' '' @ cast_identifier c @ '' IS '' @ sq @ d @ sq))"

text \<open>
  Modelled from the spec: the \<open>commentable\<close> decorator, which is not part of the
  sources. The spec has \<open>renderCreate\<close> append a following comment statement when a
  description attribute is present.
\<close>

definition commentable :: "(cast \<Rightarrow> error + string list) \<Rightarrow> cast \<Rightarrow> error + string list" where
  "commentable func obj =
     bind (func obj) (\<lambda>stmts.
     if hasattr obj ''description''
     then bind (comment obj) (\<lambda>s. Inr (stmts @ [s]))
     else Inr stmts)"

definition create :: "cast \<Rightarrow> error + string list" where
  "create c = commentable create_body c"

text \<open>
  Modelled from the spec: \<open>DbObject.drop\<close>, which is not part of the sources. The spec
  gives the statement for a cast as \<open>DROP CAST (integer AS text)\<close>.
\<close>

definition drop_stmts :: "cast \<Rightarrow> string list" where
  "drop_stmts c = [''DROP '' @ objtype @ '' '' @ cast_identifier c]"

text \<open>
  \<open>Cast.get_implied_deps\<close>. The database is seen through the two lookups the method
  makes: \<open>db.types.get\<close>, which returns nothing when the key is absent, and
  \<open>db._get_by_extkey\<close>, which may raise. \<open>split_schema_obj\<close> and the dependencies
  computed by the superclass are not part of the sources and are parameters.
\<close>

record 'o database =
  types_get :: "string \<times> string \<Rightarrow> 'o option"
  get_by_extkey :: "string \<Rightarrow> error + 'o"

definition get_implied_deps ::
  "(string \<Rightarrow> string \<times> string) \<Rightarrow> 'o set \<Rightarrow> cast \<Rightarrow> 'o database \<Rightarrow> error + 'o set" where
  "get_implied_deps split_schema_obj super_deps c db =
     (let deps = super_deps;
          src = split_schema_obj (source c);
          src_type = types_get db (fst src, rstrip (snd src) ''[]'');
          deps = (case src_type of Some t \<Rightarrow> insert t deps | None \<Rightarrow> deps);
          trg = split_schema_obj (target c);
          trg_type = types_get db (fst trg, rstrip (snd trg) ''[]'');
          deps = (case trg_type of Some t \<Rightarrow> insert t deps | None \<Rightarrow> deps)
      in bind (getattr c ''method'') (\<lambda>m.
         if m = ''f''
         then bind (getattr c ''function'') (\<lambda>f.
              bind (get_by_extkey db (''function '' @ f)) (\<lambda>func.
              Inr (insert func deps)))
         else Inr deps))"

section \<open>CastDict\<close>

text \<open>
  The collection maps the identity \<open>(source, target)\<close> to the cast. The desired-state
  document maps each external key to the attribute mapping of its entry; an entry
  without a body is the empty mapping.
\<close>

type_synonym castdict = "((string \<times> string) \<times> cast) list"

type_synonym document = "(string \<times> (string \<times> string) list) list"

text \<open>
  One iteration of the loop of \<open>CastDict.from_map\<close>. The collection is returned in
  the state the iteration leaves it in, with the error when the iteration raises. The
  new cast is stored in the collection before it is filled in, and the collection holds
  the object itself, so each later change of the cast shows in the collection.
\<close>

definition from_map_entry ::
  "castdict \<Rightarrow> string \<Rightarrow> (string \<times> string) list \<Rightarrow> error option \<times> castdict" where
  "from_map_entry self key incast =
     (if \<not> startswith key ''cast ('' \<or> \<not> str_in '' AS '' (str_upper key)
         \<or> py_slice_from key (- 1) \<noteq> '')''
      then (Some (KeyError (''Unrecognized object type: '' @ key)), self)
      else
        let asloc = str_find (str_upper key) '' AS '';
            src = py_slice key 6 asloc;
            trg = py_slice key (asloc + 4) (- 1);
            cast = Cast src trg;
            self = dict_set self (src, trg) cast
        in
        if incast = []
        then (Some (ValueError (''Cast '' @ sq @ py_slice_from key 5 @ sq
                                  @ '' has no specification'')), self)
        else
          let cast = fold (\<lambda>(attr, val) c. setattr c attr val) incast cast;
              self = dict_set self (src, trg) cast
          in
          if \<not> hasattr cast ''context''
          then (Some (ValueError (''Cast '' @ sq @ py_slice_from key 5 @ sq
                                    @ '' missing context'')), self)
          else if \<not> hasattr cast ''context''
          then (Some (ValueError (''Cast '' @ sq @ py_slice_from key 5 @ sq
                                    @ '' missing method'')), self)
          else
            (case getattr cast ''context'' of
               Inl e \<Rightarrow> (Some e, self)
             | Inr ctx \<Rightarrow>
                 let cast = setattr cast ''context'' (str_lower (py_slice_to ctx 1));
                     self = dict_set self (src, trg) cast
                 in
                 (case getattr cast ''method'' of
                    Inl e \<Rightarrow> (Some e, self)
                  | Inr m \<Rightarrow>
                      let cast = setattr cast ''method'' (str_lower (py_slice_to m 1));
                          self = dict_set self (src, trg) cast
                      in
                      if dict_has incast ''description''
                      then (case dict_lookup incast ''description'' of
                              Inl e \<Rightarrow> (Some e, self)
                            | Inr d \<Rightarrow>
                                (None, dict_set self (src, trg)
                                         (setattr cast ''description'' d)))
                      else (None, self))))"

text \<open>
  The check that \<open>from_map\<close> makes on a key, and the identity it reads from a key that
  passes: the text between \<open>cast (\<close> and the first \<open>AS\<close> delimiter, and the text between
  that delimiter and the last character.
\<close>

definition recognized_key :: "string \<Rightarrow> bool" where
  "recognized_key key =
     (startswith key ''cast ('' \<and> str_in '' AS '' (str_upper key)
      \<and> py_slice_from key (- 1) = '')'')"

definition key_source :: "string \<Rightarrow> string" where
  "key_source key = py_slice key 6 (str_find (str_upper key) '' AS '')"

definition key_target :: "string \<Rightarrow> string" where
  "key_target key = py_slice key (str_find (str_upper key) '' AS '' + 4) (- 1)"

fun from_map :: "castdict \<Rightarrow> document \<Rightarrow> error option \<times> castdict" where
  "from_map self [] = (None, self)"
| "from_map self ((key, incast) # incasts) =
     (case from_map_entry self key incast of
        (Some e, self') \<Rightarrow> (Some e, self')
      | (None, self') \<Rightarrow> from_map self' incasts)"

text \<open>
  \<open>CastDict._diff_map\<close>. The statement groups are keyed by the cast objects
  themselves, so here a collection holds a reference to the cast of each identity, and
  \<open>obj\<close> gives the cast at a reference: two casts with the same fields at two
  references are two keys. A statement group is the list that \<open>stmts[k]\<close> holds: one
  statement list for each \<open>append\<close>. The first loop leaves its variable \<open>incast\<close>
  bound to the last cast of the input, or unbound when the input is empty; the second
  loop reads it. \<open>DbObject.diff_map\<close>, which compares two casts of the same identity,
  is not part of the sources and is a parameter.
\<close>

type_synonym ref = nat

type_synonym castrefs = "((string \<times> string) \<times> ref) list"

type_synonym stmts = "(ref \<times> string list list) list"

definition stmts_append :: "stmts \<Rightarrow> ref \<Rightarrow> string list \<Rightarrow> stmts" where
  "stmts_append stmts k x =
     dict_set stmts k ((case map_of stmts k of None \<Rightarrow> [] | Some xs \<Rightarrow> xs) @ [x])"

fun check_input ::
  "(cast \<Rightarrow> cast \<Rightarrow> string list) \<Rightarrow> (ref \<Rightarrow> cast) \<Rightarrow> castrefs \<Rightarrow> castrefs
     \<Rightarrow> stmts \<times> ref option \<Rightarrow> error + stmts \<times> ref option" where
  "check_input obj_diff_map obj self [] st = Inr st"
| "check_input obj_diff_map obj self (((src, trg), incast) # rest) (stmts, last_incast) =
     (case map_of self (src, trg) of
        None \<Rightarrow>
          bind (create (obj incast)) (\<lambda>created.
          check_input obj_diff_map obj self rest
            (stmts_append stmts incast created, Some incast))
      | Some existing \<Rightarrow>
          check_input obj_diff_map obj self rest
            (stmts_append stmts incast (obj_diff_map (obj existing) (obj incast)),
             Some incast))"

fun check_existing ::
  "(ref \<Rightarrow> cast) \<Rightarrow> castrefs \<Rightarrow> castrefs \<Rightarrow> ref option \<Rightarrow> stmts \<Rightarrow> error + stmts" where
  "check_existing obj [] incasts incast stmts = Inr stmts"
| "check_existing obj (((src, trg), cast) # rest) incasts incast stmts =
     (if \<not> dict_has incasts (src, trg)
      then (case incast of
              None \<Rightarrow> Inl (UnboundLocalError ''incast'')
            | Some k \<Rightarrow>
                check_existing obj rest incasts incast
                  (stmts_append stmts k (drop_stmts (obj cast))))
      else check_existing obj rest incasts incast stmts)"

definition CastDict_diff_map ::
  "(cast \<Rightarrow> cast \<Rightarrow> string list) \<Rightarrow> (ref \<Rightarrow> cast) \<Rightarrow> castrefs \<Rightarrow> castrefs
     \<Rightarrow> error + stmts" where
  "CastDict_diff_map obj_diff_map obj self incasts =
     bind (check_input obj_diff_map obj self incasts ([], None)) (\<lambda>(stmts, incast).
     check_existing obj self incasts incast stmts)"

section \<open>Facts about strings and dictionaries\<close>

lemma startswith_iff: "startswith s p = (\<exists>q. s = p @ q)"
  unfolding startswith_def
  by (metis append_eq_conv_conj append_take_drop_id)

lemma find_from_ge: "find_from s sub i = - 1 \<or> int i \<le> find_from s sub i"
  by (induction s arbitrary: i) (auto, force)

lemma find_from_none_iff: "(find_from s sub i = - 1) = (\<not> (\<exists>p q. s = p @ sub @ q))"
proof (induction s arbitrary: i)
  case Nil
  then show ?case by auto
next
  case (Cons c s)
  show ?case
  proof (cases "startswith (c # s) sub")
    case True
    then obtain q where "c # s = sub @ q" by (auto simp: startswith_iff)
    then have "c # s = [] @ sub @ q" by simp
    then have "\<exists>p q. c # s = p @ sub @ q" by blast
    with True show ?thesis by simp
  next
    case False
    have "(\<exists>p q. c # s = p @ sub @ q) = (\<exists>p q. s = p @ sub @ q)"
    proof
      assume "\<exists>p q. c # s = p @ sub @ q"
      then obtain p q where pq: "c # s = p @ sub @ q" by blast
      show "\<exists>p q. s = p @ sub @ q"
      proof (cases p)
        case Nil
        with pq have "startswith (c # s) sub" by (auto simp: startswith_iff)
        with False show ?thesis by simp
      next
        case (Cons a p')
        with pq have "s = p' @ sub @ q" by simp
        then show ?thesis by blast
      qed
    next
      assume "\<exists>p q. s = p @ sub @ q"
      then obtain p q where "s = p @ sub @ q" by blast
      then have "c # s = (c # p) @ sub @ q" by simp
      then show "\<exists>p q. c # s = p @ sub @ q" by blast
    qed
    with False Cons.IH [of "Suc i"] show ?thesis by simp
  qed
qed

lemma str_in_iff: "str_in sub s = (\<exists>p q. s = p @ sub @ q)"
  by (simp add: str_in_def str_find_def find_from_none_iff)

lemma py_slice_from_last: "(py_slice_from key (- 1) = [c]) = (key \<noteq> [] \<and> last key = c)"
proof (cases key rule: rev_cases)
  case Nil
  then show ?thesis by (simp add: py_slice_from_def norm_index_def)
next
  case (snoc ys y)
  then show ?thesis by (simp add: py_slice_from_def norm_index_def)
qed

lemma endswith_single: "endswith key [c] = (key \<noteq> [] \<and> last key = c)"
proof (cases key rule: rev_cases)
  case Nil
  then show ?thesis by (simp add: endswith_def)
next
  case (snoc ys y)
  then show ?thesis by (simp add: endswith_def)
qed

lemma py_slice_from_5: "py_slice_from key 5 = drop 5 key"
  by (simp add: py_slice_from_def norm_index_def min_def)

lemma map_of_dict_set: "map_of (dict_set d k v) = (map_of d)(k \<mapsto> v)"
  by (induction d) (auto simp: fun_eq_iff)

lemma keys_dict_set: "set (map fst (dict_set d k v)) = insert k (set (map fst d))"
proof -
  have "fst ` set (dict_set d k v) = dom (map_of (dict_set d k v))"
    by (simp add: dom_map_of_conv_image_fst)
  also have "\<dots> = insert k (dom (map_of d))"
    by (simp add: map_of_dict_set)
  also have "\<dots> = insert k (fst ` set d)"
    by (simp add: dom_map_of_conv_image_fst)
  finally show ?thesis by simp
qed


lemma from_map_append:
  "from_map self (xs @ ys) =
     (case from_map self xs of (Some e, s) \<Rightarrow> (Some e, s) | (None, s) \<Rightarrow> from_map s ys)"
  by (induction xs arbitrary: self) (auto split: prod.splits option.splits)

lemma map_of_rev_distinct: "distinct (map fst xs) \<Longrightarrow> map_of (rev xs) = map_of xs"
  by (metis distinct_rev map_of_inject_set rev_map set_rev)

section \<open>Facts about attributes and \<open>Cast.create\<close>\<close>

lemma hasattr_map_of:
  "a \<noteq> ''source'' \<Longrightarrow> a \<noteq> ''target'' \<Longrightarrow> hasattr c a = (map_of (attrs c) a \<noteq> None)"
  by (simp add: hasattr_def dict_has_def dict_keys_def map_of_eq_None_iff)

lemma getattr_map_of:
  "a \<noteq> ''source'' \<Longrightarrow> a \<noteq> ''target'' \<Longrightarrow>
   getattr c a = (case map_of (attrs c) a of None \<Rightarrow> Inl (attr_error a) | Some v \<Rightarrow> Inr v)"
  by (simp add: getattr_def)

lemma getattr_Inr_iff:
  "a \<noteq> ''source'' \<Longrightarrow> a \<noteq> ''target'' \<Longrightarrow>
   (getattr c a = Inr v) = (map_of (attrs c) a = Some v)"
  by (simp add: getattr_def split: option.splits)

lemma create_function:
  assumes "getattr c ''context'' = Inr ctx" and "getattr c ''function'' = Inr f"
  shows "create c =
    Inr ((''CREATE CAST ('' @ source c @ '' AS '' @ target c @ '')''
            @ newline @ ''    WITH FUNCTION '' @ f
            @ (if ctx = ''a'' then newline @ ''    AS ASSIGNMENT''
               else if ctx = ''i'' then newline @ ''    AS IMPLICIT'' else ''''))
         # (case map_of (attrs c) ''description'' of
              None \<Rightarrow> []
            | Some d \<Rightarrow> [''COMMENT ON CAST '' @ cast_identifier c @ '' IS '' @ sq @ d @ sq]))"
  using assms
  by (simp add: create_def commentable_def create_body_def comment_def bind_def objtype_def
        hasattr_map_of getattr_Inr_iff getattr_map_of split: option.splits)

lemma create_no_function:
  assumes "getattr c ''context'' = Inr ctx" and "\<not> hasattr c ''function''"
    and "getattr c ''method'' = Inr m"
  shows "create c =
    Inr ((''CREATE CAST ('' @ source c @ '' AS '' @ target c @ '')''
            @ newline @ ''    '' @ (if m = ''i'' then ''WITH INOUT'' else ''WITHOUT FUNCTION'')
            @ (if ctx = ''a'' then newline @ ''    AS ASSIGNMENT''
               else if ctx = ''i'' then newline @ ''    AS IMPLICIT'' else ''''))
         # (case map_of (attrs c) ''description'' of
              None \<Rightarrow> []
            | Some d \<Rightarrow> [''COMMENT ON CAST '' @ cast_identifier c @ '' IS '' @ sq @ d @ sq]))"
  using assms
  by (simp add: create_def commentable_def create_body_def comment_def bind_def objtype_def
        hasattr_map_of getattr_Inr_iff getattr_map_of split: option.splits)

lemmas py_eval = startswith_def endswith_def str_in_def str_find_def str_upper_def
  str_lower_def upper_char_def lower_char_def ascii_lowercase_def ascii_uppercase_def
  py_slice_def py_slice_from_def py_slice_to_def norm_index_def rstrip_def newline_def
  sq_def dict_keys_def dict_has_def bind_def

lemmas cast_eval = Cast_def hasattr_def getattr_def setattr_def attr_error_def
  extern_key_def cast_identifier_def objtype_def keylist_def base_map_def dict_lookup_def
  CONTEXTS_def METHODS_def to_map_def create_body_def comment_def commentable_def
  create_def drop_stmts_def

section \<open>Facts about \<open>CastDict.from_map\<close>\<close>



lemma fold_setattr_keys:
  "set (dict_keys (attrs (fold (\<lambda>(attr, val) c. setattr c attr val) xs c))) =
   set (dict_keys (attrs c)) \<union> (set (dict_keys xs) - {''source'', ''target''})"
proof (induction xs arbitrary: c)
  case Nil
  then show ?case by (simp add: dict_keys_def)
next
  case (Cons x xs)
  obtain a v where x: "x = (a, v)" by (cases x)
  have "set (dict_keys (attrs (setattr c a v))) =
        set (dict_keys (attrs c)) \<union> ({a} - {''source'', ''target''})"
    using keys_dict_set [of "attrs c" a v] by (auto simp: setattr_def dict_keys_def)
  with Cons.IH [of "setattr c a v"] x show ?case
    by (auto simp: dict_keys_def)
qed

lemma hasattr_fold_Cast:
  "a \<noteq> ''source'' \<Longrightarrow> a \<noteq> ''target'' \<Longrightarrow>
   hasattr (fold (\<lambda>(attr, val) c. setattr c attr val) xs (Cast src trg)) a
     = (a \<in> set (dict_keys xs))"
  using fold_setattr_keys [of xs "Cast src trg"]
  by (auto simp: hasattr_def dict_has_def Cast_def dict_keys_def)




lemma hasattr_setattr:
  "hasattr (setattr c a v) b = (hasattr c b \<or> b = a)"
  using keys_dict_set [of "attrs c" a v]
  by (auto simp: hasattr_def setattr_def dict_has_def dict_keys_def)

lemma getattr_hasattr:
  "hasattr c a \<Longrightarrow> \<exists>v. getattr c a = Inr v"
  by (auto simp: hasattr_def getattr_def dict_has_def dict_keys_def map_of_eq_None_iff
      split: option.splits)

lemma getattr_not_hasattr:
  "\<not> hasattr c a \<Longrightarrow> getattr c a = Inl (attr_error a)"
  by (auto simp: hasattr_def getattr_def dict_has_def dict_keys_def map_of_eq_None_iff
      split: option.splits)

lemma recognized_key_iff:
  "recognized_key key =
     (startswith key ''cast ('' \<and> (\<exists>p q. str_upper key = p @ '' AS '' @ q)
      \<and> endswith key '')'')"
  using py_slice_from_last [of key "CHR '')''"] endswith_single [of key "CHR '')''"]
  by (simp add: recognized_key_def str_in_iff)

lemma from_map_entry_malformed:
  "\<not> recognized_key key \<Longrightarrow>
   from_map_entry self key incast =
     (Some (KeyError (''Unrecognized object type: '' @ key)), self)"
  by (auto simp: from_map_entry_def recognized_key_def)

lemma from_map_entry_no_spec:
  "recognized_key key \<Longrightarrow>
   from_map_entry self key [] =
     (Some (ValueError (''Cast '' @ sq @ drop 5 key @ sq @ '' has no specification'')),
      dict_set self (key_source key, key_target key) (Cast (key_source key) (key_target key)))"
  by (simp add: from_map_entry_def recognized_key_def key_source_def key_target_def Let_def
        py_slice_from_5)

lemma from_map_entry_no_context:
  assumes "recognized_key key" and "incast \<noteq> []" and "''context'' \<notin> set (dict_keys incast)"
  shows "fst (from_map_entry self key incast) =
           Some (ValueError (''Cast '' @ sq @ drop 5 key @ sq @ '' missing context''))"
    and "map_of (snd (from_map_entry self key incast)) =
           (map_of self)((key_source key, key_target key) \<mapsto>
              fold (\<lambda>(attr, val) c. setattr c attr val) incast
                (Cast (key_source key) (key_target key)))"
  using assms
  by (simp_all add: from_map_entry_def recognized_key_def key_source_def key_target_def Let_def
        py_slice_from_5 hasattr_fold_Cast map_of_dict_set)

lemma from_map_entry_no_method:
  assumes "recognized_key key" and "''context'' \<in> set (dict_keys incast)"
    and "''method'' \<notin> set (dict_keys incast)"
  shows "fst (from_map_entry self key incast) = Some (attr_error ''method'')"
    and "\<exists>v. map_of (snd (from_map_entry self key incast)) =
           (map_of self)((key_source key, key_target key) \<mapsto>
              setattr (fold (\<lambda>(attr, val) c. setattr c attr val) incast
                        (Cast (key_source key) (key_target key))) ''context'' v)"
proof -
  let ?c1 = "fold (\<lambda>(attr, val) c. setattr c attr val) incast
               (Cast (key_source key) (key_target key))"
  from assms(2) have ne: "incast \<noteq> []" by (auto simp: dict_keys_def)
  have h: "hasattr ?c1 ''context''" using assms(2) by (simp add: hasattr_fold_Cast)
  then obtain ctx where ctx: "getattr ?c1 ''context'' = Inr ctx"
    using getattr_hasattr by blast
  have nm: "getattr (setattr ?c1 ''context'' (str_lower (py_slice_to ctx 1))) ''method''
              = Inl (attr_error ''method'')"
    using assms(3) by (intro getattr_not_hasattr) (simp add: hasattr_setattr hasattr_fold_Cast)
  show "fst (from_map_entry self key incast) = Some (attr_error ''method'')"
    using assms(1) ne h ctx nm
    by (simp add: from_map_entry_def recognized_key_def key_source_def key_target_def Let_def)
  have "map_of (snd (from_map_entry self key incast)) =
           (map_of self)((key_source key, key_target key) \<mapsto>
              setattr ?c1 ''context'' (str_lower (py_slice_to ctx 1)))"
    using assms(1) ne h ctx nm
    by (simp add: from_map_entry_def recognized_key_def key_source_def key_target_def Let_def
          map_of_dict_set)
  then show "\<exists>v. map_of (snd (from_map_entry self key incast)) =
           (map_of self)((key_source key, key_target key) \<mapsto> setattr ?c1 ''context'' v)"
    by blast
qed


lemma from_map_entry_others:
  assumes "recognized_key key" and "k \<noteq> (key_source key, key_target key)"
  shows "map_of (snd (from_map_entry self key incast)) k = map_of self k"
  using assms
  by (simp add: from_map_entry_def recognized_key_def key_source_def key_target_def Let_def
        map_of_dict_set split: sum.splits)

lemmas from_map_eval = from_map_entry_def recognized_key_def key_source_def key_target_def
  Let_def


lemma from_map_fail_entry:
  "from_map self pre = (None, s) \<Longrightarrow> fst (from_map_entry s key incast) = Some e \<Longrightarrow>
   from_map self (pre @ (key, incast) # post) = from_map_entry s key incast"
  by (cases "from_map_entry s key incast") (auto simp: from_map_append split: option.splits)

section \<open>Facts about \<open>rstrip\<close> and the statement groups\<close>

lemma rstrip_trailing:
  assumes "set t \<subseteq> set chars" and "s = [] \<or> last s \<notin> set chars"
  shows "rstrip (s @ t) chars = s"
proof -
  have "dropWhile (\<lambda>c. c \<in> set chars) (rev t @ rev s) = dropWhile (\<lambda>c. c \<in> set chars) (rev s)"
    using assms(1) by (intro dropWhile_append2) auto
  moreover have "dropWhile (\<lambda>c. c \<in> set chars) (rev s) = rev s"
    using assms(2) by (cases s rule: rev_cases) auto
  ultimately show ?thesis by (simp add: rstrip_def)
qed

lemmas diff_map_eval = CastDict_diff_map_def stmts_append_def

lemma dict_set_fresh:
  "k \<notin> set (map fst d) \<Longrightarrow> dict_set d k v = d @ [(k, v)]"
  by (induction d) auto

lemma dict_set_last:
  "k \<notin> set (map fst pre) \<Longrightarrow> dict_set (pre @ [(k, old)]) k v = pre @ [(k, v)]"
  by (induction pre) auto

lemma stmts_append_fresh:
  assumes "k \<notin> set (map fst stmts)"
  shows "stmts_append stmts k x = stmts @ [(k, [x])]"
proof -
  from assms have "map_of stmts k = None"
    by (simp add: map_of_eq_None_iff)
  with assms show ?thesis
    by (simp add: stmts_append_def dict_set_fresh)
qed

lemma stmts_append_last:
  assumes "k \<notin> set (map fst pre)"
  shows "stmts_append (pre @ [(k, xs)]) k x = pre @ [(k, xs @ [x])]"
proof -
  from assms have "map_of pre k = None"
    by (simp add: map_of_eq_None_iff)
  then have "map_of (pre @ [(k, xs)]) k = Some xs"
    by (simp add: map_add_def)
  with assms show ?thesis
    by (simp add: stmts_append_def dict_set_last)
qed

lemma check_input_result:
  assumes "check_input f obj self incasts (stmts, li) = Inr (stmts', li')"
    and "distinct (map snd incasts)"
    and "set (map snd incasts) \<inter> set (map fst stmts) = {}"
  shows "map fst stmts' = map fst stmts @ map snd incasts
         \<and> map (\<lambda>g. map Inr (snd g)) stmts' =
             map (\<lambda>g. map Inr (snd g)) stmts
             @ map (\<lambda>(k, incast). [case map_of self k of
                      None \<Rightarrow> create (obj incast)
                    | Some existing \<Rightarrow> Inr (f (obj existing) (obj incast))]) incasts
         \<and> li' = (if incasts = [] then li else Some (snd (last incasts)))"
  using assms
proof (induction incasts arbitrary: stmts li)
  case Nil
  then show ?case by simp
next
  case (Cons x rest)
  obtain src trg incast where x: "x = ((src, trg), incast)" by (cases x) auto
  from Cons.prems(2,3) x have fresh: "incast \<notin> set (map fst stmts)"
    and d: "distinct (map snd rest)" and nin: "incast \<notin> set (map snd rest)"
    and disj: "set (map snd rest) \<inter> set (map fst stmts) = {}"
    by auto
  have "\<exists>item. check_input f obj self rest (stmts_append stmts incast item, Some incast)
                  = Inr (stmts', li')
               \<and> (case map_of self (src, trg) of
                      None \<Rightarrow> create (obj incast)
                    | Some existing \<Rightarrow> Inr (f (obj existing) (obj incast))) = Inr item"
    using Cons.prems(1) x
    by (auto simp: bind_def split: option.splits sum.splits)
  then obtain item where item:
    "check_input f obj self rest (stmts_append stmts incast item, Some incast) = Inr (stmts', li')"
    and val: "(case map_of self (src, trg) of
                      None \<Rightarrow> create (obj incast)
                    | Some existing \<Rightarrow> Inr (f (obj existing) (obj incast))) = Inr item"
    by blast
  have app: "stmts_append stmts incast item = stmts @ [(incast, [item])]"
    using fresh by (rule stmts_append_fresh)
  have disj': "set (map snd rest) \<inter> set (map fst (stmts_append stmts incast item)) = {}"
    using disj nin by (auto simp: app)
  from Cons.IH [OF item d disj'] x val show ?case
    by (auto simp: app)
qed

lemma concat_singletons:
  "map (\<lambda>s. map g (snd s)) ss = map (\<lambda>x. [h x]) xs \<Longrightarrow> map g (concat (map snd ss)) = map h xs"
proof (induction ss arbitrary: xs)
  case Nil
  then show ?case by simp
next
  case (Cons s ss)
  then obtain y ys where xs: "xs = y # ys" by (cases xs) auto
  with Cons.prems have "map g (snd s) = [h y]" and "map (\<lambda>s. map g (snd s)) ss = map (\<lambda>x. [h x]) ys"
    by simp_all
  with Cons.IH [of ys] xs show ?case by simp
qed

lemma singletons_length:
  "map (\<lambda>s. map g (snd s)) ss = map (\<lambda>x. [h x]) xs \<Longrightarrow> \<forall>s \<in> set ss. length (snd s) = 1"
proof (induction ss arbitrary: xs)
  case Nil
  then show ?case by simp
next
  case (Cons s ss)
  then obtain y ys where xs: "xs = y # ys" by (cases xs) auto
  with Cons.prems have hd: "map g (snd s) = [h y]"
    and tl: "map (\<lambda>s. map g (snd s)) ss = map (\<lambda>x. [h x]) ys"
    by simp_all
  from hd have "length (map g (snd s)) = 1" by simp
  then have "length (snd s) = 1" by simp
  with Cons.IH [OF tl] show ?case by simp
qed

lemma take1_singletons:
  "map (\<lambda>s. map g (snd s)) ss = map (\<lambda>x. [h x]) xs \<Longrightarrow>
   map (\<lambda>s. map g (take 1 (snd s))) ss = map (\<lambda>x. [h x]) xs"
proof (induction ss arbitrary: xs)
  case Nil
  then show ?case by simp
next
  case (Cons s ss)
  then obtain y ys where xs: "xs = y # ys" by (cases xs) auto
  with Cons.prems have hd: "map g (snd s) = [h y]"
    and tl: "map (\<lambda>s. map g (snd s)) ss = map (\<lambda>x. [h x]) ys"
    by simp_all
  from hd have "length (map g (snd s)) = 1" by simp
  then have "take 1 (snd s) = snd s" by simp
  with hd Cons.IH [OF tl] xs show ?case by simp
qed

lemma check_existing_result:
  assumes "check_existing obj self incasts (Some k) (pre @ [(k, xs)]) = Inr stmts'"
    and "k \<notin> set (map fst pre)"
  shows "stmts' = pre @ [(k, xs @ map (\<lambda>(key, cast). drop_stmts (obj cast))
                                  (filter (\<lambda>(key, cast). \<not> dict_has incasts key) self))]"
  using assms
proof (induction self arbitrary: xs)
  case Nil
  then show ?case by simp
next
  case (Cons x rest)
  obtain src trg c where x: "x = ((src, trg), c)" by (cases x) auto
  show ?case
  proof (cases "dict_has incasts (src, trg)")
    case True
    with Cons x show ?thesis by simp
  next
    case False
    with Cons.prems x have
      "check_existing obj rest incasts (Some k) (pre @ [(k, xs @ [drop_stmts (obj c)])])
         = Inr stmts'"
      by (simp add: stmts_append_last)
    from Cons.IH [OF this Cons.prems(2)] False x show ?thesis by simp
  qed
qed

lemma check_existing_unbound:
  "check_existing obj self incasts None stmts = Inr stmts' \<Longrightarrow>
   stmts' = stmts \<and> filter (\<lambda>(key, cast). \<not> dict_has incasts key) self = []"
  by (induction self arbitrary: stmts) (auto split: if_splits)

section \<open>Facts about \<open>to_map\<close> and the external key\<close>














section \<open>The statement built by \<open>Cast.create\<close>\<close>

text \<open>
  Claim C6. \<open>Cast.create\<close> chooses the WITH clause in this order: a cast that has a
  \<open>function\<close> attribute gets \<open>WITH FUNCTION <name>\<close>; otherwise a cast whose method is
  \<open>i\<close> gets \<open>WITH INOUT\<close>; otherwise the clause is \<open>WITHOUT FUNCTION\<close>. The theorem
  gives the whole statement list: the CREATE CAST statement with its WITH clause and AS
  clause, followed by the comment statement when the cast has a description.
\<close>

theorem create_with_clause:
  assumes "getattr c ''context'' = Inr ctx"
    and "\<not> hasattr c ''function'' \<Longrightarrow> getattr c ''method'' = Inr m"
  shows "create c =
    Inr ((''CREATE CAST ('' @ source c @ '' AS '' @ target c @ '')'' @ newline @ ''    ''
            @ (if hasattr c ''function''
               then ''WITH FUNCTION '' @ the (map_of (attrs c) ''function'')
               else if m = ''i'' then ''WITH INOUT''
               else ''WITHOUT FUNCTION'')
            @ (if ctx = ''a'' then newline @ ''    AS ASSIGNMENT''
               else if ctx = ''i'' then newline @ ''    AS IMPLICIT''
               else ''''))
         # (case map_of (attrs c) ''description'' of
              None \<Rightarrow> []
            | Some d \<Rightarrow> [''COMMENT ON CAST '' @ cast_identifier c @ '' IS '' @ sq @ d @ sq]))"
proof (cases "hasattr c ''function''")
  case True
  then obtain f where f: "map_of (attrs c) ''function'' = Some f"
    by (auto simp: hasattr_map_of)
  then have "getattr c ''function'' = Inr f"
    by (simp add: getattr_Inr_iff)
  from create_function [OF assms(1) this] True f show ?thesis by simp
next
  case False
  from create_no_function [OF assms(1) False assms(2) [OF False]] False
  show ?thesis by simp
qed

theorem create_with_clause_witness:
  "getattr \<lparr>source = ''integer'', target = ''text'',
            attrs = [(''context'', ''a''), (''method'', ''b'')]\<rparr> ''context'' = Inr ''a''
   \<and> \<not> hasattr \<lparr>source = ''integer'', target = ''text'',
            attrs = [(''context'', ''a''), (''method'', ''b'')]\<rparr> ''function''
   \<and> getattr \<lparr>source = ''integer'', target = ''text'',
            attrs = [(''context'', ''a''), (''method'', ''b'')]\<rparr> ''method'' = Inr ''b''
   \<and> create \<lparr>source = ''integer'', target = ''text'',
            attrs = [(''context'', ''a''), (''method'', ''b'')]\<rparr>
       = Inr [''CREATE CAST (integer AS text)'' @ newline @ ''    WITHOUT FUNCTION''
                @ newline @ ''    AS ASSIGNMENT'']"
  using create_with_clause [of "\<lparr>source = ''integer'', target = ''text'',
            attrs = [(''context'', ''a''), (''method'', ''b'')]\<rparr>" "''a''" "''b''"]
  by (simp add: getattr_def hasattr_def dict_has_def dict_keys_def)

text \<open>
  Claim C4, as stated, fails: for the cast \<open>(integer AS text)\<close> with context \<open>e\<close> and
  function \<open>myfunc\<close> the statement ends with the WITH clause; no \<open>AS EXPLICIT\<close> follows.
\<close>

theorem create_explicit_counterexample:
  "create \<lparr>source = ''integer'', target = ''text'',
           attrs = [(''context'', ''e''), (''method'', ''f''), (''function'', ''myfunc'')]\<rparr>
     = Inr [''CREATE CAST (integer AS text)'' @ newline @ ''    WITH FUNCTION myfunc'']
   \<and> \<not> endswith (''CREATE CAST (integer AS text)'' @ newline @ ''    WITH FUNCTION myfunc'')
                  ''AS EXPLICIT''"
  by (simp add: py_eval cast_eval)

text \<open>
  Claim C4, amended. For a cast with context \<open>e\<close> and a \<open>function\<close> attribute,
  \<open>Cast.create\<close> returns the statement \<open>CREATE CAST (source AS target) WITH FUNCTION
  name\<close> with no AS clause after the WITH clause (explicit is the default context), then
  the comment statement when the cast has a description.
\<close>

theorem create_explicit_has_no_as_clause:
  assumes "getattr c ''context'' = Inr ''e''" and "getattr c ''function'' = Inr f"
  shows "create c =
    Inr ((''CREATE CAST ('' @ source c @ '' AS '' @ target c @ '')'' @ newline
            @ ''    WITH FUNCTION '' @ f)
         # (case map_of (attrs c) ''description'' of
              None \<Rightarrow> []
            | Some d \<Rightarrow> [''COMMENT ON CAST '' @ cast_identifier c @ '' IS '' @ sq @ d @ sq]))"
  using create_function [OF assms] by simp

theorem create_explicit_has_no_as_clause_witness:
  "getattr \<lparr>source = ''integer'', target = ''text'',
            attrs = [(''context'', ''e''), (''method'', ''f''), (''function'', ''myfunc'')]\<rparr>
       ''context'' = Inr ''e''
   \<and> getattr \<lparr>source = ''integer'', target = ''text'',
            attrs = [(''context'', ''e''), (''method'', ''f''), (''function'', ''myfunc'')]\<rparr>
       ''function'' = Inr ''myfunc''
   \<and> create \<lparr>source = ''integer'', target = ''text'',
            attrs = [(''context'', ''e''), (''method'', ''f''), (''function'', ''myfunc'')]\<rparr>
       = Inr [''CREATE CAST (integer AS text)'' @ newline @ ''    WITH FUNCTION myfunc'']"
  using create_explicit_has_no_as_clause [of "\<lparr>source = ''integer'', target = ''text'',
            attrs = [(''context'', ''e''), (''method'', ''f''), (''function'', ''myfunc'')]\<rparr>"
            "''myfunc''"]
  by (simp add: getattr_def)


section \<open>Loading the desired state: \<open>CastDict.from_map\<close>\<close>

text \<open>
  Claim C7. When \<open>from_map\<close> reaches a key that does not start with \<open>cast (\<close>, or has
  no \<open>AS\<close> delimiter in any letter case, or does not end with \<open>)\<close>, it raises the
  error \<open>Unrecognized object type\<close> followed by the key. The collection is the one the
  earlier entries left: no cast is created for the key and no attribute of its entry is
  applied. The key \<open>badcast (integer AS text)\<close> is rejected in this way.
\<close>

theorem from_map_malformed_key:
  assumes "from_map self pre = (None, s)"
    and "\<not> startswith key ''cast ('' \<or> \<not> (\<exists>p q. str_upper key = p @ '' AS '' @ q)
         \<or> \<not> endswith key '')''"
  shows "from_map self (pre @ (key, incast) # post) =
           (Some (KeyError (''Unrecognized object type: '' @ key)), s)"
proof -
  from assms(2) have "\<not> recognized_key key"
    by (simp add: recognized_key_iff)
  then show ?thesis
    using assms(1) by (simp add: from_map_append from_map_entry_malformed)
qed

theorem from_map_malformed_key_witness:
  "from_map [] [] = (None, [])
   \<and> \<not> startswith ''badcast (integer AS text)'' ''cast (''
   \<and> from_map [] ([] @ (''badcast (integer AS text)'', [(''context'', ''explicit'')]) # [])
       = (Some (KeyError ''Unrecognized object type: badcast (integer AS text)''), [])"
  using from_map_malformed_key [of "[]" "[]" "[]" "''badcast (integer AS text)''"
          "[(''context'', ''explicit'')]" "[]"]
  by (simp add: startswith_def)

text \<open>
  An entry that omits \<open>context\<close> is answered by the first check, or by the check for an
  empty entry before it: loading fails with a ValueError that names the cast by the key
  without its first five characters, and names the attribute when the entry is not
  empty.
\<close>

lemma from_map_context_omitted:
  assumes "from_map self pre = (None, s)" and "recognized_key key"
    and "''context'' \<notin> set (dict_keys incast)"
  shows "fst (from_map self (pre @ (key, incast) # post)) =
           Some (ValueError (''Cast '' @ sq @ drop 5 key @ sq
                   @ (if incast = [] then '' has no specification'' else '' missing context'')))"
proof (cases "incast = []")
  case True
  with assms show ?thesis
    by (simp add: from_map_append from_map_entry_no_spec)
next
  case False
  have "from_map s ((key, incast) # post) = 
          (fst (from_map_entry s key incast), snd (from_map_entry s key incast))"
    using from_map_entry_no_context(1) [OF assms(2) False assms(3), of s]
    by (cases "from_map_entry s key incast") simp
  with False assms(1) from_map_entry_no_context(1) [OF assms(2) False assms(3), of s]
  show ?thesis
    by (simp add: from_map_append)
qed

lemma from_map_context_omitted_example:
  "from_map [] [] = (None, [])
   \<and> recognized_key ''cast (integer AS text)''
   \<and> ''context'' \<notin> set (dict_keys [(''method'', ''function'')])
   \<and> fst (from_map [] ([] @ (''cast (integer AS text)'', [(''method'', ''function'')]) # []))
       = Some (ValueError (''Cast '' @ sq @ ''(integer AS text)'' @ sq @ '' missing context''))"
  using from_map_context_omitted [of "[]" "[]" "[]" "''cast (integer AS text)''"
          "[(''method'', ''function'')]" "[]"]
  by (simp add: from_map_eval py_eval)

text \<open>
  Claim C3 on the code. An entry that has \<open>context\<close> and omits \<open>method\<close> passes both
  checks, since the second check tests \<open>context\<close> again. The context is reduced to its
  code, and the read of \<open>cast.method\<close> raises an AttributeError whose message names the
  attribute and the class \<open>Cast\<close>, and not the cast \<open>(integer AS text)\<close>; the ValueError
  \<open>missing method\<close> of the second check is never raised.
\<close>

theorem from_map_missing_method_attribute_error:
  "from_map [] [(''cast (integer AS text)'', [(''context'', ''explicit'')])]
     = (Some (AttributeError (sq @ ''Cast'' @ sq @ '' object has no attribute '' @ sq @ ''method'' @ sq)),
        [((''integer'', ''text''),
          \<lparr>source = ''integer'', target = ''text'', attrs = [(''context'', ''e'')]\<rparr>)])
   \<and> \<not> str_in ''(integer AS text)''
           (sq @ ''Cast'' @ sq @ '' object has no attribute '' @ sq @ ''method'' @ sq)"
  by (simp add: from_map_eval py_eval cast_eval)




text \<open>
  Claim C10, as stated, fails for the casts of earlier keys: the new cast is stored
  under its identity before the entry is checked, and it replaces a cast that an earlier
  key of the same identity left there. After \<open>cast (a AS b)\<close> has loaded, the empty
  entry \<open>cast (a as b)\<close> fails, and the collection holds the bare cast in place of the
  loaded one.
\<close>

theorem from_map_not_atomic_counterexample:
  "from_map []
     [(''cast (a AS b)'', [(''context'', ''explicit''), (''method'', ''inout'')])]
     = (None, [((''a'', ''b''),
                \<lparr>source = ''a'', target = ''b'',
                   attrs = [(''context'', ''e''), (''method'', ''i'')]\<rparr>)])
   \<and> from_map []
     [(''cast (a AS b)'', [(''context'', ''explicit''), (''method'', ''inout'')]),
      (''cast (a as b)'', [])]
     = (Some (ValueError (''Cast '' @ sq @ ''(a as b)'' @ sq @ '' has no specification'')),
        [((''a'', ''b''), \<lparr>source = ''a'', target = ''b'', attrs = []\<rparr>)])"
  by (simp add: from_map_eval py_eval cast_eval)

text \<open>
  Claim C10, amended. \<open>from_map\<close> is not atomic. When it reaches a recognized key whose
  entry is empty or omits \<open>context\<close> or \<open>method\<close>, loading fails, and the collection it
  leaves holds, under the identity of the failing key, a cast that lacks \<open>context\<close> or
  \<open>method\<close>, in place of any cast an earlier key stored under that identity; every
  other identity holds what the earlier entries stored.
\<close>

theorem from_map_not_atomic:
  assumes "from_map self pre = (None, s)" and "recognized_key key"
    and "incast = [] \<or> ''context'' \<notin> set (dict_keys incast)
         \<or> ''method'' \<notin> set (dict_keys incast)"
  shows "\<exists>e c. fst (from_map self (pre @ (key, incast) # post)) = Some e
           \<and> map_of (snd (from_map self (pre @ (key, incast) # post)))
                (key_source key, key_target key) = Some c
           \<and> (\<not> hasattr c ''context'' \<or> \<not> hasattr c ''method'')
           \<and> (\<forall>k. k \<noteq> (key_source key, key_target key) \<longrightarrow>
                 map_of (snd (from_map self (pre @ (key, incast) # post))) k = map_of s k)"
proof -
  let ?c1 = "fold (\<lambda>(attr, val) c. setattr c attr val) incast
               (Cast (key_source key) (key_target key))"
  have "\<exists>e c. fst (from_map_entry s key incast) = Some e
          \<and> map_of (snd (from_map_entry s key incast)) (key_source key, key_target key) = Some c
          \<and> (\<not> hasattr c ''context'' \<or> \<not> hasattr c ''method'')"
  proof (cases "incast = []")
    case True
    then show ?thesis
      using assms(2)
      by (simp add: from_map_entry_no_spec map_of_dict_set hasattr_def Cast_def dict_has_def
            dict_keys_def)
  next
    case ne: False
    show ?thesis
    proof (cases "''context'' \<in> set (dict_keys incast)")
      case False
      from from_map_entry_no_context [OF assms(2) ne False, of s] False
      show ?thesis by (simp add: hasattr_fold_Cast)
    next
      case True
      with assms(3) ne have nm: "''method'' \<notin> set (dict_keys incast)" by simp
      from from_map_entry_no_method [OF assms(2) True nm, of s] nm
      show ?thesis by (auto simp: hasattr_setattr hasattr_fold_Cast)
    qed
  qed
  then obtain e c where ec: "fst (from_map_entry s key incast) = Some e"
    "map_of (snd (from_map_entry s key incast)) (key_source key, key_target key) = Some c"
    "\<not> hasattr c ''context'' \<or> \<not> hasattr c ''method''"
    by blast
  have eq: "from_map self (pre @ (key, incast) # post) = from_map_entry s key incast"
    using from_map_fail_entry [OF assms(1) ec(1)] .
  show ?thesis
    using ec from_map_entry_others [OF assms(2), of _ s incast]
    by (simp add: eq)
qed

theorem from_map_not_atomic_witness:
  "from_map [] [(''cast (integer AS text)'',
                  [(''context'', ''explicit''), (''method'', ''function''),
                   (''function'', ''myfunc'')])]
     = (None, [((''integer'', ''text''),
                \<lparr>source = ''integer'', target = ''text'',
                   attrs = [(''context'', ''e''), (''method'', ''f''),
                            (''function'', ''myfunc'')]\<rparr>)])
   \<and> recognized_key ''cast (text AS integer)''
   \<and> (\<exists>e c. fst (from_map [] ([(''cast (integer AS text)'',
                  [(''context'', ''explicit''), (''method'', ''function''),
                   (''function'', ''myfunc'')])] @ (''cast (text AS integer)'', []) # [])) = Some e
        \<and> map_of (snd (from_map [] ([(''cast (integer AS text)'',
                  [(''context'', ''explicit''), (''method'', ''function''),
                   (''function'', ''myfunc'')])] @ (''cast (text AS integer)'', []) # [])))
             (key_source ''cast (text AS integer)'', key_target ''cast (text AS integer)'') = Some c
        \<and> (\<not> hasattr c ''context'' \<or> \<not> hasattr c ''method''))
   \<and> map_of (snd (from_map [] ([(''cast (integer AS text)'',
                  [(''context'', ''explicit''), (''method'', ''function''),
                   (''function'', ''myfunc'')])] @ (''cast (text AS integer)'', []) # [])))
         (''integer'', ''text'')
       = Some \<lparr>source = ''integer'', target = ''text'',
                   attrs = [(''context'', ''e''), (''method'', ''f''),
                            (''function'', ''myfunc'')]\<rparr>"
proof -
  have pre: "from_map [] [(''cast (integer AS text)'',
                  [(''context'', ''explicit''), (''method'', ''function''),
                   (''function'', ''myfunc'')])]
     = (None, [((''integer'', ''text''),
                \<lparr>source = ''integer'', target = ''text'',
                   attrs = [(''context'', ''e''), (''method'', ''f''),
                            (''function'', ''myfunc'')]\<rparr>)])"
    by (simp add: from_map_eval py_eval cast_eval)
  have key: "recognized_key ''cast (text AS integer)''"
    by (simp add: from_map_eval py_eval)
  have ks: "(''integer'', ''text'') \<noteq>
            (key_source ''cast (text AS integer)'', key_target ''cast (text AS integer)'')"
    by (simp add: from_map_eval py_eval)
  from from_map_not_atomic [OF pre key, of "[]" "[]"] ks pre key
  show ?thesis by auto
qed


section \<open>Dependencies: \<open>Cast.get_implied_deps\<close>\<close>

text \<open>
  Claim C8. \<open>get_implied_deps\<close> looks the source type and the target type up under
  the name with its trailing \<open>[\<close> and \<open>]\<close> characters removed, adds each type that the
  lookup finds and raises nothing for a type it does not find. When the method is \<open>f\<close>
  it also adds the object found for \<open>function <name>\<close>.
\<close>

theorem get_implied_deps_result:
  assumes "getattr c ''method'' = Inr m"
    and "m = ''f'' \<Longrightarrow>
         getattr c ''function'' = Inr f \<and> get_by_extkey db (''function '' @ f) = Inr func"
  shows "get_implied_deps split_schema_obj super_deps c db =
     Inr (super_deps
          \<union> set_option (types_get db (fst (split_schema_obj (source c)),
                                       rstrip (snd (split_schema_obj (source c))) ''[]''))
          \<union> set_option (types_get db (fst (split_schema_obj (target c)),
                                       rstrip (snd (split_schema_obj (target c))) ''[]''))
          \<union> (if m = ''f'' then {func} else {}))"
  using assms
  by (auto simp: get_implied_deps_def bind_def Let_def split: option.splits)

theorem get_implied_deps_result_witness:
  "getattr \<lparr>source = ''mytype[]'', target = ''text'',
            attrs = [(''context'', ''e''), (''method'', ''f''), (''function'', ''myfunc(mytype[])'')]\<rparr>
       ''method'' = Inr ''f''
   \<and> getattr \<lparr>source = ''mytype[]'', target = ''text'',
            attrs = [(''context'', ''e''), (''method'', ''f''), (''function'', ''myfunc(mytype[])'')]\<rparr>
       ''function'' = Inr ''myfunc(mytype[])''
   \<and> get_implied_deps (\<lambda>s. (''public'', s)) {}
        \<lparr>source = ''mytype[]'', target = ''text'',
            attrs = [(''context'', ''e''), (''method'', ''f''), (''function'', ''myfunc(mytype[])'')]\<rparr>
        \<lparr>types_get = map_of [((''public'', ''mytype''), 1 :: nat)],
           get_by_extkey = (\<lambda>k. if k = ''function myfunc(mytype[])'' then Inr 2
                                 else Inl (KeyError k))\<rparr>
       = Inr {1, 2}"
  using get_implied_deps_result [of
     "\<lparr>source = ''mytype[]'', target = ''text'',
            attrs = [(''context'', ''e''), (''method'', ''f''), (''function'', ''myfunc(mytype[])'')]\<rparr>"
     "''f''" "''myfunc(mytype[])''"
     "\<lparr>types_get = map_of [((''public'', ''mytype''), 1 :: nat)],
           get_by_extkey = (\<lambda>k. if k = ''function myfunc(mytype[])'' then Inr 2
                                 else Inl (KeyError k))\<rparr>"
     "2" "\<lambda>s. (''public'', s)" "{}"]
  by (auto simp: getattr_def rstrip_def)

section \<open>Comparing collections: \<open>CastDict._diff_map\<close>\<close>

text \<open>
  Claim C1 on the code. With one current cast \<open>(integer AS text)\<close>, at reference 0,
  and an empty desired collection, the second loop reads the variable \<open>incast\<close>, which
  the first loop never bound, and the call raises instead of returning the drop
  statement. With a desired collection that holds the other cast \<open>(text AS integer)\<close>,
  at reference 1, the drop statement of \<open>(integer AS text)\<close> is appended to the group
  keyed by reference 1, the desired cast, and no group is keyed by the dropped cast.
\<close>

theorem diff_map_drop_miskeyed:
  "CastDict_diff_map (\<lambda>existing incast. [])
     (\<lambda>r. if r = 0
          then \<lparr>source = ''integer'', target = ''text'',
                 attrs = [(''context'', ''a''), (''method'', ''b'')]\<rparr>
          else \<lparr>source = ''text'', target = ''integer'',
                 attrs = [(''context'', ''e''), (''method'', ''i'')]\<rparr>)
     [((''integer'', ''text''), 0)]
     []
   = Inl (UnboundLocalError ''incast'')
   \<and> CastDict_diff_map (\<lambda>existing incast. [])
     (\<lambda>r. if r = 0
          then \<lparr>source = ''integer'', target = ''text'',
                 attrs = [(''context'', ''a''), (''method'', ''b'')]\<rparr>
          else \<lparr>source = ''text'', target = ''integer'',
                 attrs = [(''context'', ''e''), (''method'', ''i'')]\<rparr>)
     [((''integer'', ''text''), 0)]
     [((''text'', ''integer''), 1)]
   = Inr [(1, [[''CREATE CAST (text AS integer)'' @ newline @ ''    WITH INOUT''],
               [''DROP CAST (integer AS text)'']])]"
  by (simp add: diff_map_eval py_eval cast_eval)

text \<open>
  Claim C5, as stated, fails: both loops follow the iteration order of their collection
  and nothing is sorted. The same two desired casts in the two possible orders give the
  two statement groups, and so the two statements, in opposite orders.
\<close>

theorem diff_map_order_counterexample:
  "CastDict_diff_map (\<lambda>existing incast. [])
     (\<lambda>r. if r = 0
          then \<lparr>source = ''integer'', target = ''text'',
                 attrs = [(''context'', ''a''), (''method'', ''b'')]\<rparr>
          else \<lparr>source = ''text'', target = ''integer'',
                 attrs = [(''context'', ''e''), (''method'', ''i'')]\<rparr>)
     []
     [((''integer'', ''text''), 0), ((''text'', ''integer''), 1)]
   = Inr [(0, [[''CREATE CAST (integer AS text)'' @ newline @ ''    WITHOUT FUNCTION''
                  @ newline @ ''    AS ASSIGNMENT'']]),
          (1, [[''CREATE CAST (text AS integer)'' @ newline @ ''    WITH INOUT'']])]
   \<and> CastDict_diff_map (\<lambda>existing incast. [])
     (\<lambda>r. if r = 0
          then \<lparr>source = ''integer'', target = ''text'',
                 attrs = [(''context'', ''a''), (''method'', ''b'')]\<rparr>
          else \<lparr>source = ''text'', target = ''integer'',
                 attrs = [(''context'', ''e''), (''method'', ''i'')]\<rparr>)
     []
     [((''text'', ''integer''), 1), ((''integer'', ''text''), 0)]
   = Inr [(1, [[''CREATE CAST (text AS integer)'' @ newline @ ''    WITH INOUT'']]),
          (0, [[''CREATE CAST (integer AS text)'' @ newline @ ''    WITHOUT FUNCTION''
                  @ newline @ ''    AS ASSIGNMENT'']])]
   \<and> [''CREATE CAST (integer AS text)'' @ newline @ ''    WITHOUT FUNCTION''
               @ newline @ ''    AS ASSIGNMENT'',
        ''CREATE CAST (text AS integer)'' @ newline @ ''    WITH INOUT'']
     \<noteq> [''CREATE CAST (text AS integer)'' @ newline @ ''    WITH INOUT'',
         ''CREATE CAST (integer AS text)'' @ newline @ ''    WITHOUT FUNCTION''
               @ newline @ ''    AS ASSIGNMENT'']"
  by (simp add: diff_map_eval py_eval cast_eval)

text \<open>
  Claim C5, amended. \<open>_diff_map\<close> goes through the desired collection and then through
  the current collection, each in its own iteration order, and sorts nothing. When it
  returns and every key of the desired collection holds its own cast object, the first
  groups are keyed by the desired casts in the order of the desired collection, each
  of these groups begins with what \<open>create\<close> returns for its cast when the identity is
  not in the current collection and with the difference from the current cast
  otherwise, and the statement lists, read group by group, are these lists in that
  order, then the drop statements of the current casts whose identity is not in the
  desired collection, in the order of the current collection. The output is the same
  for the same collections in the same orders, and it follows the orders of the input
  when they change. The theorem does not say which group holds a drop statement.
\<close>

theorem diff_map_statement_order:
  assumes "distinct (map snd incasts)"
    and "CastDict_diff_map obj_diff_map obj self incasts = Inr stmts"
  shows "take (length incasts) (map fst stmts) = map snd incasts
         \<and> map (\<lambda>g. map Inr (take 1 (snd g))) (take (length incasts) stmts) =
             map (\<lambda>(k, incast). [case map_of self k of
                      None \<Rightarrow> create (obj incast)
                    | Some existing \<Rightarrow> Inr (obj_diff_map (obj existing) (obj incast))]) incasts
         \<and> map Inr (concat (map snd stmts)) =
             map (\<lambda>(k, incast). case map_of self k of
                      None \<Rightarrow> create (obj incast)
                    | Some existing \<Rightarrow> Inr (obj_diff_map (obj existing) (obj incast))) incasts
             @ map (\<lambda>(k, cast). Inr (drop_stmts (obj cast)))
                 (filter (\<lambda>(k, cast). \<not> dict_has incasts k) self)"
proof -
  let ?item = "\<lambda>(k, incast). case map_of self k of
                      None \<Rightarrow> create (obj incast)
                    | Some existing \<Rightarrow> Inr (obj_diff_map (obj existing) (obj incast))"
  let ?drops = "map (\<lambda>(key, cast). drop_stmts (obj cast))
                  (filter (\<lambda>(key, cast). \<not> dict_has incasts key) self)"
  from assms(2) obtain stmts1 li where
    ci: "check_input obj_diff_map obj self incasts ([], None) = Inr (stmts1, li)"
    and ce: "check_existing obj self incasts li stmts1 = Inr stmts"
    by (auto simp: CastDict_diff_map_def bind_def split: sum.splits)
  from check_input_result [OF ci assms(1)] have
    k1: "map fst stmts1 = map snd incasts"
    and g1: "map (\<lambda>g. map Inr (snd g)) stmts1 = map (\<lambda>x. [?item x]) incasts"
    and li: "li = (if incasts = [] then None else Some (snd (last incasts)))"
    by (simp_all add: case_prod_unfold)
  have "length (map fst stmts1) = length (map snd incasts)"
    using k1 by simp
  then have len1: "length stmts1 = length incasts"
    by simp
  have f1: "map Inr (concat (map snd stmts1)) = map ?item incasts"
    using g1 by (rule concat_singletons)
  have t1: "map (\<lambda>g. map Inr (take 1 (snd g))) stmts1 = map (\<lambda>x. [?item x]) incasts"
    using g1 by (rule take1_singletons)
  show ?thesis
  proof (cases "incasts = []")
    case True
    with li ce check_existing_unbound [of obj self incasts stmts1 stmts] k1 f1
    show ?thesis by simp
  next
    case False
    with li have l: "li = Some (snd (last incasts))" by simp
    from False len1 have ne: "stmts1 \<noteq> []" by auto
    define pre where "pre = butlast stmts1"
    define xs where "xs = snd (last stmts1)"
    have "last (map fst stmts1) = last (map snd incasts)"
      using k1 by simp
    then have "fst (last stmts1) = snd (last incasts)"
      using ne False by (simp add: last_map)
    then have "last stmts1 = (snd (last incasts), xs)"
      by (simp add: xs_def prod_eq_iff)
    then have s1: "stmts1 = pre @ [(snd (last incasts), xs)]"
      using ne append_butlast_last_id [of stmts1] by (simp add: pre_def)
    have "distinct (map fst stmts1)" using k1 assms(1) by simp
    then have fresh: "snd (last incasts) \<notin> set (map fst pre)"
      unfolding s1 by simp
    from check_existing_result [OF ce [unfolded l s1] fresh] have
      res: "stmts = pre @ [(snd (last incasts), xs @ ?drops)]" .
    have keys: "map fst stmts = map fst stmts1"
      by (simp add: res s1)
    have len: "length stmts = length incasts"
      using len1 by (simp add: res s1)
    have "(snd (last incasts), xs) \<in> set stmts1"
      unfolding s1 by simp
    with singletons_length [OF g1] have "length xs = 1"
      by fastforce
    then have "take 1 (xs @ ?drops) = take 1 xs" by simp
    then have eq: "map (\<lambda>g. map (Inr :: string list \<Rightarrow> error + string list) (take 1 (snd g))) stmts
                     = map (\<lambda>g. map Inr (take 1 (snd g))) stmts1"
      by (simp add: res s1)
    from eq t1 have "map (\<lambda>g. map Inr (take 1 (snd g))) stmts = map (\<lambda>x. [?item x]) incasts"
      by (rule trans)
    moreover have "take (length incasts) stmts = stmts"
      using len by simp
    ultimately have second:
      "map (\<lambda>g. map Inr (take 1 (snd g))) (take (length incasts) stmts) =
         map (\<lambda>x. [?item x]) incasts"
      by (simp only:)
    have "concat (map snd stmts) = concat (map snd stmts1) @ ?drops"
      by (simp add: res s1)
    then have "map (Inr :: string list \<Rightarrow> error + string list) (concat (map snd stmts)) =
            map Inr (concat (map snd stmts1))
            @ map (\<lambda>(k, cast). Inr (drop_stmts (obj cast)))
                (filter (\<lambda>(k, cast). \<not> dict_has incasts k) self)"
      by (simp add: comp_def case_prod_unfold)
    then have third: "map Inr (concat (map snd stmts)) =
             map ?item incasts
             @ map (\<lambda>(k, cast). Inr (drop_stmts (obj cast)))
                 (filter (\<lambda>(k, cast). \<not> dict_has incasts k) self)"
      unfolding f1 .
    have "map fst stmts = map snd incasts"
      using keys k1 by simp
    then have first: "take (length incasts) (map fst stmts) = map snd incasts"
      by simp
    from first second third show ?thesis
      by (simp add: case_prod_unfold)
  qed
qed

theorem diff_map_statement_order_witness:
  "distinct (map snd [((''x'', ''y''), 3 :: nat), ((''integer'', ''text''), 4)])
   \<and> CastDict_diff_map
       (\<lambda>existing incast. [''COMMENT ON CAST '' @ cast_identifier incast @ '' IS NULL''])
       (\<lambda>r. [\<lparr>source = ''integer'', target = ''text'',
                 attrs = [(''context'', ''a''), (''method'', ''b''),
                          (''description'', ''old'')]\<rparr>,
              \<lparr>source = ''text'', target = ''integer'',
                 attrs = [(''context'', ''e''), (''method'', ''i'')]\<rparr>,
              \<lparr>source = ''a'', target = ''b'',
                 attrs = [(''context'', ''i''), (''method'', ''b'')]\<rparr>,
              \<lparr>source = ''x'', target = ''y'',
                 attrs = [(''context'', ''e''), (''method'', ''b'')]\<rparr>,
              \<lparr>source = ''integer'', target = ''text'',
                 attrs = [(''context'', ''a''), (''method'', ''b'')]\<rparr>] ! r)
       [((''integer'', ''text''), 0), ((''text'', ''integer''), 1), ((''a'', ''b''), 2)]
       [((''x'', ''y''), 3), ((''integer'', ''text''), 4)]
     = Inr [(3, [[''CREATE CAST (x AS y)'' @ newline @ ''    WITHOUT FUNCTION'']]),
            (4, [[''COMMENT ON CAST (integer AS text) IS NULL''],
                 [''DROP CAST (text AS integer)''],
                 [''DROP CAST (a AS b)'']])]
   \<and> take (length [((''x'', ''y''), 3 :: nat), ((''integer'', ''text''), 4)])
        (map fst
          [(3 :: nat, [[''CREATE CAST (x AS y)'' @ newline @ ''    WITHOUT FUNCTION'']]),
           (4, [[''COMMENT ON CAST (integer AS text) IS NULL''],
                [''DROP CAST (text AS integer)''],
                [''DROP CAST (a AS b)'']])])
       = map snd [((''x'', ''y''), 3 :: nat), ((''integer'', ''text''), 4)]
   \<and> map (\<lambda>g. take 1 (snd g))
        (take (length [((''x'', ''y''), 3 :: nat), ((''integer'', ''text''), 4)])
          [(3 :: nat, [[''CREATE CAST (x AS y)'' @ newline @ ''    WITHOUT FUNCTION'']]),
           (4, [[''COMMENT ON CAST (integer AS text) IS NULL''],
                [''DROP CAST (text AS integer)''],
                [''DROP CAST (a AS b)'']])])
       = [[[''CREATE CAST (x AS y)'' @ newline @ ''    WITHOUT FUNCTION'']],
          [[''COMMENT ON CAST (integer AS text) IS NULL'']]]
   \<and> concat (map snd
          [(3 :: nat, [[''CREATE CAST (x AS y)'' @ newline @ ''    WITHOUT FUNCTION'']]),
           (4, [[''COMMENT ON CAST (integer AS text) IS NULL''],
                [''DROP CAST (text AS integer)''],
                [''DROP CAST (a AS b)'']])])
       = [[''CREATE CAST (x AS y)'' @ newline @ ''    WITHOUT FUNCTION''],
          [''COMMENT ON CAST (integer AS text) IS NULL''],
          [''DROP CAST (text AS integer)''],
          [''DROP CAST (a AS b)'']]"
proof -
  let ?f = "\<lambda>existing incast. [''COMMENT ON CAST '' @ cast_identifier incast @ '' IS NULL'']"
  let ?obj = "\<lambda>r. [\<lparr>source = ''integer'', target = ''text'',
                 attrs = [(''context'', ''a''), (''method'', ''b''),
                          (''description'', ''old'')]\<rparr>,
              \<lparr>source = ''text'', target = ''integer'',
                 attrs = [(''context'', ''e''), (''method'', ''i'')]\<rparr>,
              \<lparr>source = ''a'', target = ''b'',
                 attrs = [(''context'', ''i''), (''method'', ''b'')]\<rparr>,
              \<lparr>source = ''x'', target = ''y'',
                 attrs = [(''context'', ''e''), (''method'', ''b'')]\<rparr>,
              \<lparr>source = ''integer'', target = ''text'',
                 attrs = [(''context'', ''a''), (''method'', ''b'')]\<rparr>] ! r"
  let ?self = "[((''integer'', ''text''), 0 :: nat), ((''text'', ''integer''), 1),
                ((''a'', ''b''), 2)]"
  let ?in = "[((''x'', ''y''), 3 :: nat), ((''integer'', ''text''), 4)]"
  have d: "distinct (map snd ?in)" by simp
  have r: "CastDict_diff_map ?f ?obj ?self ?in
     = Inr [(3, [[''CREATE CAST (x AS y)'' @ newline @ ''    WITHOUT FUNCTION'']]),
            (4, [[''COMMENT ON CAST (integer AS text) IS NULL''],
                 [''DROP CAST (text AS integer)''],
                 [''DROP CAST (a AS b)'']])]"
    by (simp add: diff_map_eval py_eval cast_eval)
  from diff_map_statement_order [OF d r] d r show ?thesis
    by simp
qed

section \<open>The round trip through \<open>to_map\<close> and \<open>from_map\<close>\<close>




end
